theory Spec2Isabelle
  imports Complex_Main "HOL-Library.Char_ord" "HOL-Library.List_Lexorder" "HOL-Library.Multiset"
begin

section \<open>Values and errors\<close>

text \<open>
  What \<open>json.loads\<close> returns: Python's \<open>None\<close>, \<open>bool\<close>, numbers, \<open>str\<close>, \<open>list\<close> and
  \<open>dict\<close>. A \<open>dict\<close> is an association list whose keys are distinct, read with \<open>map_of\<close>.
\<close>

datatype json =
    JNull
  | JBool bool
  | JNum rat
  | JStr string
  | JArr "json list"
  | JObj "(string \<times> json) list"

text \<open>The exceptions the modelled functions can raise.\<close>

datatype error =
    KeyError string
  | AttributeError
  | TypeError
  | ValueError
  | JSONDecodeError
  | OSError
  | RequestException

section \<open>Data frames\<close>

text \<open>
  A \<open>pandas.DataFrame\<close> as far as \<open>final_task.py\<close> uses it: the column labels and the rows in
  order. \<open>pd.DataFrame(rows)\<close> takes its columns from the keys of the row dictionaries, so a
  frame built from no rows has no columns at all.
\<close>

record 'r frame =
  columns :: "string list"
  rows :: "'r list"

definition event_columns :: "string list" where
  "event_columns =
     [''timestamp'', ''event_type'', ''src_ip'', ''dest_ip'', ''severity'', ''signature'',
      ''dns_rrname'']"

definition DataFrame :: "'r list \<Rightarrow> 'r frame" where
  "DataFrame rs = \<lparr>columns = (if rs = [] then [] else event_columns), rows = rs\<rparr>"

definition empty :: "'r frame \<Rightarrow> bool" where
  "empty df \<longleftrightarrow> columns df = [] \<or> rows df = []"

text \<open>
  One row of the event frame, with the cell types of the data model: an address is a string
  or missing, a severity an integer or missing (\<open>None\<close> is pandas' \<open>None\<close>/\<open>NaN\<close>/\<open>NaT\<close>).
\<close>

record event =
  timestamp :: "int option"
  event_type :: "string option"
  src_ip :: "string option"
  dest_ip :: "string option"
  severity :: "int option"
  signature :: "string option"
  dns_rrname :: "string option"

text \<open>
  One vulnerability record; \<open>cvss\<close> is the number \<open>pd.to_numeric(..., errors="coerce")\<close> reads
  in the record's \<open>cvss\<close> cell, \<open>None\<close> where the cell is missing or not numeric.
\<close>

record vuln =
  vuln_id :: string
  title :: string
  cvss :: "rat option"
  published :: "string option"
  references :: "string list"

text \<open>One row of the \<open>suspicious\<close> table (column \<open>src_ip\<close> is \<open>row_src_ip\<close>).\<close>

record stat_row =
  row_src_ip :: string
  alert_count :: int
  high_severity_alert_count :: int
  dns_query_count :: int
  risk_score :: int

record stats =
  total_vulns :: int
  high_cvss_count :: int
  suricata_events :: int
  alert_events :: int
  dns_events :: int
  threat_ips :: int

record analysis =
  vulns_df :: "vuln list"
  high_cvss :: "vuln list"
  alerts_df :: "event frame"
  suspicious :: "stat_row list"
  threats :: "stat_row list"
  stats :: stats

section \<open>analyze\<close>

definition CVSS_THRESHOLD :: rat where
  "CVSS_THRESHOLD = 8"

definition DNS_SPIKE_THRESHOLD :: int where
  "DNS_SPIKE_THRESHOLD = 6"

text \<open>
  \<open>df.groupby("src_ip").size()\<close>: one entry per distinct address, in ascending order of the
  address (\<open>sort=True\<close> is the default), rows whose address is missing left out
  (\<open>dropna=True\<close> is the default).
\<close>

definition groupby_size :: "event list \<Rightarrow> (string \<times> int) list" where
  "groupby_size evs =
     map (\<lambda>k. (k, int (length (filter (\<lambda>e. src_ip e = Some k) evs))))
       (sort (remdups (List.map_filter src_ip evs)))"

text \<open>
  The row labels of \<open>pd.concat(..., axis=1)\<close>: the labels of the first series, then those of
  the later ones that are new, each once.
\<close>

definition union_indexes :: "string list list \<Rightarrow> string list" where
  "union_indexes ixs = rev (remdups (rev (concat ixs)))"

text \<open>A cell of the concatenated table after \<open>.fillna(0)\<close> and \<open>.astype(int)\<close>.\<close>

definition cell0 :: "(string \<times> int) list \<Rightarrow> string \<Rightarrow> int" where
  "cell0 s k = (case map_of s k of None \<Rightarrow> 0 | Some n \<Rightarrow> n)"

text \<open>The \<open>suspicious\<close> table of \<open>analyze\<close> before \<open>sort_values\<close>.\<close>

definition suspicious_unsorted :: "event list \<Rightarrow> event list \<Rightarrow> stat_row list" where
  "suspicious_unsorted alerts dns =
     (let alert_counts = groupby_size alerts;
          high_severity_counts =
            groupby_size
              (filter (\<lambda>e. (case severity e of None \<Rightarrow> 99 | Some s \<Rightarrow> s) \<le> 2) alerts);
          dns_counts = groupby_size dns
      in map (\<lambda>k.
            let a = cell0 alert_counts k;
                h = cell0 high_severity_counts k;
                d = cell0 dns_counts k
            in \<lparr>row_src_ip = k, alert_count = a, high_severity_alert_count = h,
                dns_query_count = d,
                risk_score = h * 5 + a * 2 + (if d \<ge> DNS_SPIKE_THRESHOLD then 1 else 0) * 3\<rparr>)
          (union_indexes [map fst alert_counts, map fst high_severity_counts, map fst dns_counts]))"

text \<open>
  \<open>sort_values\<close> is \<open>suspicious.sort_values("risk_score", ascending=False)\<close>, a parameter of
  the model: pandas sorts with \<open>kind="quicksort"\<close> by default, which puts the rows in
  non-increasing order of the key and promises no order among rows with equal keys.
\<close>

definition analyze ::
  "(stat_row list \<Rightarrow> stat_row list) \<Rightarrow> vuln list \<Rightarrow> event frame \<Rightarrow> error + analysis" where
  "analyze sort_values vulns suricata_df =
     (let vulns_df = map (\<lambda>v. v\<lparr>cvss := Some (case cvss v of None \<Rightarrow> 0 | Some c \<Rightarrow> c)\<rparr>) vulns;
          high_cvss = filter (\<lambda>v. case cvss v of None \<Rightarrow> False | Some c \<Rightarrow> c \<ge> CVSS_THRESHOLD)
                        vulns_df
      in if ''event_type'' \<notin> set (columns suricata_df) then Inl (KeyError ''event_type'')
         else
           let alerts_df = suricata_df\<lparr>rows := filter (\<lambda>e. event_type e = Some ''alert'')
                                                  (rows suricata_df)\<rparr>;
               dns_df = suricata_df\<lparr>rows := filter (\<lambda>e. event_type e = Some ''dns'')
                                               (rows suricata_df)\<rparr>
           in if ''src_ip'' \<notin> set (columns suricata_df) then Inl (KeyError ''src_ip'')
              else if ''severity'' \<notin> set (columns suricata_df) then Inl (KeyError ''severity'')
              else
                let suspicious = sort_values (suspicious_unsorted (rows alerts_df) (rows dns_df));
                    threats = filter (\<lambda>r. risk_score r \<ge> 5) suspicious
                in Inr \<lparr>vulns_df = vulns_df, high_cvss = high_cvss, alerts_df = alerts_df,
                        suspicious = suspicious, threats = threats,
                        stats = \<lparr>total_vulns = int (length vulns_df),
                                 high_cvss_count = int (length high_cvss),
                                 suricata_events = int (length (rows suricata_df)),
                                 alert_events = int (length (rows alerts_df)),
                                 dns_events = int (length (rows dns_df)),
                                 threat_ips = int (length threats)\<rparr>\<rparr>)"

text \<open>
  What \<open>sort_values\<close> promises: the same rows, in non-increasing order of \<open>risk_score\<close>.
\<close>

definition sorts_by_risk_desc :: "(stat_row list \<Rightarrow> stat_row list) \<Rightarrow> bool" where
  "sorts_by_risk_desc f \<longleftrightarrow>
     (\<forall>t. mset (f t) = mset t \<and> sorted_wrt (\<lambda>a b. risk_score b \<le> risk_score a) (f t))"

text \<open>
  The sort that keeps rows with equal keys in the order of its input (a stable sort), one of
  the sorts that meet the promise.
\<close>

definition sort_values_stable :: "stat_row list \<Rightarrow> stat_row list" where
  "sort_values_stable t = sort_key (\<lambda>r. - risk_score r) t"

section \<open>simulate_response\<close>

record action =
  action_src_ip :: string
  action_risk_score :: int
  simulated_block :: bool
  notification :: string

text \<open>Python's \<open>str\<close> of an integer, as the f-strings format \<open>score\<close>.\<close>

fun str_nat :: "nat \<Rightarrow> string" where
  "str_nat n =
     (if n < 10 then [char_of (48 + n)] else str_nat (n div 10) @ [char_of (48 + n mod 10)])"

definition str_int :: "int \<Rightarrow> string" where
  "str_int i = (if i < 0 then ''-'' @ str_nat (nat (- i)) else str_nat (nat i))"

text \<open>
  The threat frame always carries the columns of \<open>suspicious\<close>, so it is empty when it has no
  row. The console output (\<open>print\<close>) is not modelled, and with it the two environment
  variables that only feed it.
\<close>

definition simulate_response :: "stat_row list \<Rightarrow> action list" where
  "simulate_response threats_df =
     (if threats_df = [] then []
      else map (\<lambda>row.
             let src_ip = row_src_ip row;
                 score = risk_score row;
                 notify_msg = ''[ALERT] Threat detected from '' @ src_ip @ ''. Risk score=''
                                @ str_int score @ ''.''
             in \<lparr>action_src_ip = src_ip, action_risk_score = score, simulated_block = True,
                 notification = notify_msg\<rparr>)
           threats_df)"

section \<open>Python values\<close>

text \<open>Raising is \<open>Inl\<close>; \<open>and_then\<close> runs the next statement when the last one returned.\<close>

definition and_then :: "error + 'a \<Rightarrow> ('a \<Rightarrow> error + 'b) \<Rightarrow> error + 'b" where
  "and_then m f = (case m of Inl e \<Rightarrow> Inl e | Inr x \<Rightarrow> f x)"

fun traverse_e :: "('a \<Rightarrow> error + 'b) \<Rightarrow> 'a list \<Rightarrow> error + 'b list" where
  "traverse_e f [] = Inr []"
| "traverse_e f (x # xs) =
     and_then (f x) (\<lambda>y. and_then (traverse_e f xs) (\<lambda>ys. Inr (y # ys)))"

text \<open>Truth value of a Python object, as \<open>or\<close> and \<open>if\<close> test it.\<close>

fun truthy :: "json \<Rightarrow> bool" where
  "truthy JNull = False"
| "truthy (JBool b) = b"
| "truthy (JNum r) = (r \<noteq> 0)"
| "truthy (JStr s) = (s \<noteq> [])"
| "truthy (JArr xs) = (xs \<noteq> [])"
| "truthy (JObj kvs) = (kvs \<noteq> [])"

definition py_or :: "json \<Rightarrow> json \<Rightarrow> json" where
  "py_or a b = (if truthy a then a else b)"

text \<open>\<open>obj.get(key, default)\<close>: only a \<open>dict\<close> has the method.\<close>

fun py_get :: "json \<Rightarrow> string \<Rightarrow> json \<Rightarrow> error + json" where
  "py_get (JObj kvs) k d = Inr (case map_of kvs k of None \<Rightarrow> d | Some v \<Rightarrow> v)"
| "py_get _ k d = Inl AttributeError"

text \<open>
  \<open>for doc in docs\<close>: a list yields its items, a \<open>dict\<close> its keys, a \<open>str\<close> its characters;
  nothing else can be iterated.
\<close>

fun py_iter :: "json \<Rightarrow> error + json list" where
  "py_iter (JArr xs) = Inr xs"
| "py_iter (JObj kvs) = Inr (map (\<lambda>kv. JStr (fst kv)) kvs)"
| "py_iter (JStr s) = Inr (map (\<lambda>c. JStr [c]) s)"
| "py_iter _ = Inl TypeError"

text \<open>
  \<open>str.strip()\<close>: the whitespace of Python among the characters below 256.
\<close>

definition is_space :: "char \<Rightarrow> bool" where
  "is_space c \<longleftrightarrow> (of_char c :: nat) \<in> set [9, 10, 11, 12, 13, 28, 29, 30, 31, 32, 133, 160]"

definition strip :: "string \<Rightarrow> string" where
  "strip s = rev (dropWhile is_space (rev (dropWhile is_space s)))"

section \<open>fetch_vulners_data\<close>

text \<open>
  The body of the loop over \<open>docs\<close>, giving the dictionary that is appended to \<open>vulns\<close>.
  \<open>pyfloat\<close> is Python's \<open>float\<close>, a parameter.
\<close>

definition vuln_of_doc :: "(json \<Rightarrow> error + rat) \<Rightarrow> json \<Rightarrow> error + json" where
  "vuln_of_doc pyfloat doc =
     and_then (py_get doc ''cvss'' (JObj [])) (\<lambda>c0.
       let cvss = py_or c0 (JObj []) in
       and_then (py_get cvss ''score'' JNull) (\<lambda>score0.
       and_then
         (if score0 = JNull then
            and_then (py_get doc ''cvss3'' (JObj [])) (\<lambda>c3.
            and_then (py_get c3 ''cvssV3'' (JObj [])) (\<lambda>v3.
            py_get v3 ''baseScore'' JNull))
          else Inr score0) (\<lambda>score.
       and_then (py_get doc ''id'' (JStr ''unknown'')) (\<lambda>vid.
       and_then (py_get doc ''title'' (JStr [])) (\<lambda>title.
       and_then (if score \<noteq> JNull then pyfloat score else Inr 0) (\<lambda>c.
       and_then (py_get doc ''published'' JNull) (\<lambda>pub.
       and_then (py_get doc ''lastseen'' JNull) (\<lambda>seen.
       and_then (py_get doc ''href'' JNull) (\<lambda>href.
         Inr (JObj [(''id'', vid), (''title'', title), (''cvss'', JNum c),
                    (''published'', py_or pub seen),
                    (''references'', JArr (if truthy href then [href] else []))]))))))))))"

text \<open>\<open>payload.get("data", {}).get("search", [])\<close>, as the loop iterates it.\<close>

definition payload_docs :: "json \<Rightarrow> error + json list" where
  "payload_docs payload =
     and_then (py_get payload ''data'' (JObj [])) (\<lambda>data.
     and_then (py_get data ''search'' (JArr [])) py_iter)"

text \<open>
  The body of the \<open>try\<close> up to the end of the loop. \<open>requests_get\<close> is the request with
  \<open>raise_for_status\<close> and \<open>response.json()\<close>, a parameter: it raises or gives the payload.
\<close>

definition remote_vulns ::
  "(json \<Rightarrow> error + rat) \<Rightarrow> (string \<Rightarrow> error + json) \<Rightarrow> string \<Rightarrow> error + json list" where
  "remote_vulns pyfloat requests_get api_key =
     and_then (requests_get api_key) (\<lambda>payload.
     and_then (payload_docs payload) (traverse_e (vuln_of_doc pyfloat)))"

text \<open>
  \<open>env_key\<close> is the environment variable \<open>VULNERS_API_KEY\<close>, \<open>local_file\<close> what reading and
  decoding the fallback file gives. \<open>except Exception\<close> catches every error of the model.
\<close>

definition fetch_vulners_data ::
  "(json \<Rightarrow> error + rat) \<Rightarrow> (string \<Rightarrow> error + json) \<Rightarrow> error + json \<Rightarrow> string option
     \<Rightarrow> error + json \<times> string" where
  "fetch_vulners_data pyfloat requests_get local_file env_key =
     (let api_key = strip (case env_key of None \<Rightarrow> [] | Some k \<Rightarrow> k);
          local = and_then local_file (\<lambda>local_data. Inr (local_data, ''local_vulners_sample''))
      in if api_key \<noteq> [] then
           (case remote_vulns pyfloat requests_get api_key of
              Inr vulns \<Rightarrow> if vulns \<noteq> [] then Inr (JArr vulns, ''vulners_api'') else local
            | Inl exc \<Rightarrow> local)
         else local)"

text \<open>
  The resolution order in the words of the specification: the primary score field, else the
  nested v3 base-score field, else 0.0. A field is absent when a member on the way to it is
  missing or \<open>null\<close>.
\<close>

fun field_at :: "json \<Rightarrow> string list \<Rightarrow> json option" where
  "field_at JNull ks = None"
| "field_at v [] = Some v"
| "field_at (JObj kvs) (k # ks) = (case map_of kvs k of None \<Rightarrow> None | Some v \<Rightarrow> field_at v ks)"
| "field_at _ (k # ks) = None"

definition cvss_resolution :: "(json \<Rightarrow> error + rat) \<Rightarrow> json \<Rightarrow> error + rat" where
  "cvss_resolution pyfloat doc =
     (case field_at doc [''cvss'', ''score''] of
        Some s \<Rightarrow> pyfloat s
      | None \<Rightarrow>
          (case field_at doc [''cvss3'', ''cvssV3'', ''baseScore''] of
             Some s \<Rightarrow> pyfloat s
           | None \<Rightarrow> Inr 0))"

section \<open>load_suricata_events\<close>

text \<open>The dictionary appended to \<open>rows\<close> for one decoded line.\<close>

definition event_row :: "json \<Rightarrow> error + (string \<times> json) list" where
  "event_row evt =
     and_then (py_get evt ''timestamp'' JNull) (\<lambda>ts.
     and_then (py_get evt ''event_type'' JNull) (\<lambda>ty.
     and_then (py_get evt ''src_ip'' JNull) (\<lambda>src.
     and_then (py_get evt ''dest_ip'' JNull) (\<lambda>dst.
     and_then (py_get evt ''alert'' JNull) (\<lambda>alert.
     and_then (py_get (py_or alert (JObj [])) ''severity'' JNull) (\<lambda>sev.
     and_then (py_get (py_or alert (JObj [])) ''signature'' JNull) (\<lambda>sig.
     and_then (py_get evt ''dns'' JNull) (\<lambda>dns.
     and_then (py_get (py_or dns (JObj [])) ''rrname'' JNull) (\<lambda>rrname.
       Inr [(''timestamp'', ts), (''event_type'', ty), (''src_ip'', src), (''dest_ip'', dst),
            (''severity'', sev), (''signature'', sig), (''dns_rrname'', rrname)])))))))))"

text \<open>
  The loop over the lines of the file; \<open>json_loads\<close> is \<open>json.loads\<close>, a parameter. There is
  no handler around it: what it raises leaves the loop and the function.
\<close>

fun read_rows ::
  "(string \<Rightarrow> error + json) \<Rightarrow> string list \<Rightarrow> error + (string \<times> json) list list" where
  "read_rows json_loads [] = Inr []"
| "read_rows json_loads (line # rest) =
     (let line = strip line
      in if line = [] then read_rows json_loads rest
         else and_then (json_loads line) (\<lambda>evt.
              and_then (event_row evt) (\<lambda>row.
              and_then (read_rows json_loads rest) (\<lambda>rows. Inr (row # rows)))))"

definition set_column :: "string \<Rightarrow> json \<Rightarrow> (string \<times> json) list \<Rightarrow> (string \<times> json) list" where
  "set_column k v row =
     (if k \<in> fst ` set row then map (\<lambda>kv. if fst kv = k then (k, v) else kv) row
      else row @ [(k, v)])"

text \<open>
  \<open>file\<close> is what opening and reading the event file gives: it raises or yields the lines.
  \<open>to_datetime\<close> is \<open>pd.to_datetime(..., errors="coerce")\<close> on a column, a parameter; its
  cells are written as \<open>json\<close>, \<open>JNull\<close> for \<open>NaT\<close>.
\<close>

definition load_suricata_events ::
  "(string \<Rightarrow> error + json) \<Rightarrow> (json list \<Rightarrow> json list) \<Rightarrow> error + string list
     \<Rightarrow> error + (string \<times> json) list frame" where
  "load_suricata_events json_loads to_datetime file =
     and_then file (\<lambda>f.
     and_then (read_rows json_loads f) (\<lambda>rows.
       let df = DataFrame rows
       in Inr (if \<not> empty df then
                 df\<lparr>rows := map2 (set_column ''timestamp'')
                               (to_datetime
                                  (map (\<lambda>r. case map_of r ''timestamp'' of None \<Rightarrow> JNull
                                             | Some v \<Rightarrow> v) (frame.rows df)))
                               (frame.rows df)\<rparr>
               else df)))"

section \<open>Order of first appearance\<close>

text \<open>
  The position at which an address is first seen in a list of events, in the words of the
  specification's tie-breaking rule.
\<close>

definition first_seen :: "event list \<Rightarrow> string \<Rightarrow> nat" where
  "first_seen evs a = length (takeWhile (\<lambda>e. src_ip e \<noteq> Some a) evs)"

section \<open>Sample data\<close>

definition sample_event :: "string \<Rightarrow> string option \<Rightarrow> int option \<Rightarrow> event" where
  "sample_event ty ip sev =
     \<lparr>timestamp = None, event_type = Some ty, src_ip = ip, dest_ip = None, severity = sev,
      signature = None, dns_rrname = None\<rparr>"

text \<open>Scenario A and Scenario B of the specification.\<close>

definition scenario_A :: "event frame" where
  "scenario_A =
     DataFrame [sample_event ''alert'' (Some ''10.0.0.5'') (Some 1),
                sample_event ''dns'' (Some ''10.0.0.5'') None]"

definition scenario_B :: "event frame" where
  "scenario_B = DataFrame (replicate 6 (sample_event ''dns'' (Some ''10.0.0.9'') None))"

text \<open>
  A mixed frame: two addresses with alerts, an alert without severity, events without an
  address, and an event that is neither an alert nor a dns query.
\<close>

definition sample_frame :: "event frame" where
  "sample_frame =
     DataFrame [sample_event ''alert'' (Some ''10.0.0.9'') (Some 3),
                sample_event ''alert'' (Some ''10.0.0.5'') (Some 1),
                sample_event ''dns'' (Some ''10.0.0.5'') None,
                sample_event ''alert'' None (Some 1),
                sample_event ''alert'' (Some ''10.0.0.9'') None,
                sample_event ''dns'' None None,
                sample_event ''flow'' (Some ''10.0.0.7'') None]"

definition sample_row_5 :: stat_row where
  "sample_row_5 =
     \<lparr>row_src_ip = ''10.0.0.5'', alert_count = 1, high_severity_alert_count = 1,
      dns_query_count = 1, risk_score = 7\<rparr>"

definition sample_row_9 :: stat_row where
  "sample_row_9 =
     \<lparr>row_src_ip = ''10.0.0.9'', alert_count = 2, high_severity_alert_count = 0,
      dns_query_count = 0, risk_score = 4\<rparr>"

definition sample_result :: analysis where
  "sample_result =
     \<lparr>vulns_df = [], high_cvss = [],
      alerts_df = \<lparr>columns = event_columns,
                   rows = [sample_event ''alert'' (Some ''10.0.0.9'') (Some 3),
                           sample_event ''alert'' (Some ''10.0.0.5'') (Some 1),
                           sample_event ''alert'' None (Some 1),
                           sample_event ''alert'' (Some ''10.0.0.9'') None]\<rparr>,
      suspicious = [sample_row_5, sample_row_9],
      threats = [sample_row_5],
      stats = \<lparr>total_vulns = 0, high_cvss_count = 0, suricata_events = 7, alert_events = 4,
               dns_events = 2, threat_ips = 1\<rparr>\<rparr>"

text \<open>Two addresses with one low-severity alert each, the larger address first.\<close>

definition tie_frame :: "event frame" where
  "tie_frame =
     DataFrame [sample_event ''alert'' (Some ''10.0.0.9'') (Some 3),
                sample_event ''alert'' (Some ''10.0.0.5'') (Some 3)]"



fun sample_float :: "json \<Rightarrow> error + rat" where
  "sample_float (JNum r) = Inr r"
| "sample_float _ = Inl TypeError"



text \<open>Scenario E of the specification: the remote source answers with zero documents.\<close>

definition scenario_E_payload :: json where
  "scenario_E_payload = JObj [(''data'', JObj [(''search'', JArr [])])]"

text \<open>A remote document whose \<open>cvss3\<close> member is \<open>null\<close>, and one whose \<open>cvss\<close> member is.\<close>

definition null_cvss3_doc :: json where
  "null_cvss3_doc = JObj [(''id'', JStr ''CVE-2024-0001''), (''cvss3'', JNull)]"

definition null_cvss_doc :: json where
  "null_cvss_doc = JObj [(''id'', JStr ''CVE-2024-0002''), (''cvss'', JNull)]"

definition null_cvss3_payload :: json where
  "null_cvss3_payload = JObj [(''data'', JObj [(''search'', JArr [null_cvss3_doc])])]"

text \<open>
  A sort that also meets the promise of \<open>sort_values\<close> and turns the rows with equal keys
  around.
\<close>

definition sort_values_reversed :: "stat_row list \<Rightarrow> stat_row list" where
  "sort_values_reversed t = rev (sort_key risk_score t)"

definition sample_local :: json where
  "sample_local = JArr [JObj [(''id'', JStr ''CVE-2023-0001''), (''cvss'', JNum 9)]]"

definition scenario_E_get :: "string \<Rightarrow> error + json" where
  "scenario_E_get api_key = Inr scenario_E_payload"

definition network_down :: "string \<Rightarrow> error + json" where
  "network_down api_key = Inl RequestException"

definition null_cvss3_get :: "string \<Rightarrow> error + json" where
  "null_cvss3_get api_key = Inr null_cvss3_payload"

section \<open>Properties of analyze\<close>

lemma set_map_filter_src_ip:
  "set (List.map_filter src_ip evs) = {a. \<exists>e \<in> set evs. src_ip e = Some a}"
proof -
  have "a \<in> set (List.map_filter src_ip evs) \<longleftrightarrow> (\<exists>e \<in> set evs. src_ip e = Some a)" for a
    by (induction evs) (auto simp: List.map_filter_simps split: option.splits)
  then show ?thesis by blast
qed

lemma keys_groupby_size:
  "set (map fst (groupby_size evs)) = {a. \<exists>e \<in> set evs. src_ip e = Some a}"
  by (simp add: groupby_size_def comp_def set_map_filter_src_ip)

lemma cell0_groupby_size:
  "cell0 (groupby_size evs) k = int (length (filter (\<lambda>e. src_ip e = Some k) evs))"
proof (cases "\<exists>e \<in> set evs. src_ip e = Some k")
  case True
  then have "k \<in> set (sort (remdups (List.map_filter src_ip evs)))"
    by (simp add: set_map_filter_src_ip)
  then show ?thesis
    by (simp add: cell0_def groupby_size_def map_of_map_restrict)
next
  case False
  then have "k \<notin> set (sort (remdups (List.map_filter src_ip evs)))"
    by (simp add: set_map_filter_src_ip)
  moreover from False have "filter (\<lambda>e. src_ip e = Some k) evs = []"
    by (simp add: filter_empty_conv)
  ultimately show ?thesis
    by (simp add: cell0_def groupby_size_def map_of_map_restrict)
qed

lemma set_union_indexes: "set (union_indexes ixs) = \<Union> (set ` set ixs)"
  by (simp add: union_indexes_def)


lemma suspicious_unsorted_row:
  assumes "row \<in> set (suspicious_unsorted alerts dns)"
  shows "alert_count row = int (length (filter (\<lambda>e. src_ip e = Some (row_src_ip row)) alerts))"
    and "high_severity_alert_count row =
           int (length (filter (\<lambda>e. src_ip e = Some (row_src_ip row))
             (filter (\<lambda>e. (case severity e of None \<Rightarrow> 99 | Some s \<Rightarrow> s) \<le> 2) alerts)))"
    and "dns_query_count row = int (length (filter (\<lambda>e. src_ip e = Some (row_src_ip row)) dns))"
    and "risk_score row = high_severity_alert_count row * 5 + alert_count row * 2 +
           (if dns_query_count row \<ge> DNS_SPIKE_THRESHOLD then 1 else 0) * 3"
    and "\<exists>e \<in> set alerts \<union> set dns. src_ip e = Some (row_src_ip row)"
proof -
  let ?hi = "filter (\<lambda>e. (case severity e of None \<Rightarrow> 99 | Some s \<Rightarrow> s) \<le> 2) alerts"
  from assms obtain k where
    k: "k \<in> set (union_indexes [map fst (groupby_size alerts), map fst (groupby_size ?hi),
                                  map fst (groupby_size dns)])"
    and row: "row = \<lparr>row_src_ip = k, alert_count = cell0 (groupby_size alerts) k,
                high_severity_alert_count = cell0 (groupby_size ?hi) k,
                dns_query_count = cell0 (groupby_size dns) k,
                risk_score = cell0 (groupby_size ?hi) k * 5 + cell0 (groupby_size alerts) k * 2
                  + (if cell0 (groupby_size dns) k \<ge> DNS_SPIKE_THRESHOLD then 1 else 0) * 3\<rparr>"
    unfolding suspicious_unsorted_def Let_def by auto
  show "alert_count row = int (length (filter (\<lambda>e. src_ip e = Some (row_src_ip row)) alerts))"
    by (simp add: row cell0_groupby_size)
  show "high_severity_alert_count row =
           int (length (filter (\<lambda>e. src_ip e = Some (row_src_ip row)) ?hi))"
    by (simp only: row cell0_groupby_size stat_row.simps)
  show "dns_query_count row = int (length (filter (\<lambda>e. src_ip e = Some (row_src_ip row)) dns))"
    by (simp add: row cell0_groupby_size)
  show "risk_score row = high_severity_alert_count row * 5 + alert_count row * 2 +
           (if dns_query_count row \<ge> DNS_SPIKE_THRESHOLD then 1 else 0) * 3"
    by (simp add: row)
  from k have "k \<in> {a. \<exists>e \<in> set alerts. src_ip e = Some a} \<union>
      {a. \<exists>e \<in> set ?hi. src_ip e = Some a} \<union> {a. \<exists>e \<in> set dns. src_ip e = Some a}"
    unfolding set_union_indexes by (simp only: keys_groupby_size [symmetric]) auto
  then show "\<exists>e \<in> set alerts \<union> set dns. src_ip e = Some (row_src_ip row)"
    by (auto simp: row)
qed

lemma analyze_Inr:
  assumes "analyze sort_values vulns df = Inr r"
  shows "suspicious r = sort_values (suspicious_unsorted
            (filter (\<lambda>e. event_type e = Some ''alert'') (rows df))
            (filter (\<lambda>e. event_type e = Some ''dns'') (rows df)))"
    and "threats r = filter (\<lambda>row. risk_score row \<ge> 5) (suspicious r)"
    and "''event_type'' \<in> set (columns df)"
  using assms by (auto simp: analyze_def Let_def split: if_splits)

lemma sorts_by_risk_desc_set: "sorts_by_risk_desc f \<Longrightarrow> set (f t) = set t"
  unfolding sorts_by_risk_desc_def by (metis set_mset_mset)


lemma sort_values_stable_ok: "sorts_by_risk_desc sort_values_stable"
proof -
  have "sorted_wrt (\<lambda>a b. risk_score b \<le> risk_score a) (sort_key (\<lambda>r. - risk_score r) t)"
    for t :: "stat_row list"
    using sorted_sort_key [of "\<lambda>r. - risk_score r" t] by (simp add: sorted_map)
  then show ?thesis
    by (simp add: sorts_by_risk_desc_def sort_values_stable_def)
qed

lemma sample_analysis: "analyze sort_values_stable [] sample_frame = Inr sample_result"
  by code_simp

lemma sample_row_5_in: "sample_row_5 \<in> set (suspicious sample_result)"
  by (simp add: sample_result_def)

text \<open>Scenario A and Scenario B of the specification, with the stable sort.\<close>

lemma scenario_A_analysis:
  "map_sum id suspicious (analyze sort_values_stable [] scenario_A) =
     Inr [\<lparr>row_src_ip = ''10.0.0.5'', alert_count = 1, high_severity_alert_count = 1,
            dns_query_count = 1, risk_score = 7\<rparr>]
   \<and> map_sum id (\<lambda>r. simulate_response (threats r)) (analyze sort_values_stable [] scenario_A) =
     Inr [\<lparr>action_src_ip = ''10.0.0.5'', action_risk_score = 7, simulated_block = True,
            notification = ''[ALERT] Threat detected from 10.0.0.5. Risk score=7.''\<rparr>]"
  by code_simp

lemma scenario_B_analysis:
  "map_sum id suspicious (analyze sort_values_stable [] scenario_B) =
     Inr [\<lparr>row_src_ip = ''10.0.0.9'', alert_count = 0, high_severity_alert_count = 0,
            dns_query_count = 6, risk_score = 3\<rparr>]
   \<and> map_sum id threats (analyze sort_values_stable [] scenario_B) = Inr []"
  by code_simp

text \<open>
  C1. Every row of the per-address statistics returned by \<open>analyze\<close> has
  \<open>risk_score = high_severity_alert_count * 5 + alert_count * 2 + 3\<close> when
  \<open>dns_query_count\<close> reaches the DNS spike threshold 6, and without the 3 otherwise.
\<close>

theorem analyze_risk_score:
  assumes "analyze sort_values vulns suricata_df = Inr r"
    and "sorts_by_risk_desc sort_values"
    and "row \<in> set (suspicious r)"
  shows "risk_score row =
           high_severity_alert_count row * 5 + alert_count row * 2
             + (if dns_query_count row \<ge> 6 then 3 else 0)"
proof -
  from assms have "row \<in> set (suspicious_unsorted
      (filter (\<lambda>e. event_type e = Some ''alert'') (rows suricata_df))
      (filter (\<lambda>e. event_type e = Some ''dns'') (rows suricata_df)))"
    by (simp add: analyze_Inr(1) sorts_by_risk_desc_set)
  from suspicious_unsorted_row(4) [OF this] show ?thesis
    by (simp add: DNS_SPIKE_THRESHOLD_def)
qed

theorem analyze_risk_score_witness:
  "analyze sort_values_stable [] sample_frame = Inr sample_result
   \<and> sorts_by_risk_desc sort_values_stable
   \<and> sample_row_5 \<in> set (suspicious sample_result)
   \<and> risk_score sample_row_5 = 1 * 5 + 1 * 2 + 0
   \<and> risk_score sample_row_5 =
        high_severity_alert_count sample_row_5 * 5 + alert_count sample_row_5 * 2
          + (if dns_query_count sample_row_5 \<ge> 6 then 3 else 0)"
  using analyze_risk_score [OF sample_analysis sort_values_stable_ok sample_row_5_in]
    sample_analysis sort_values_stable_ok sample_row_5_in
  by (simp add: sample_row_5_def)

text \<open>
  C5. The threat list returned by \<open>analyze\<close> holds exactly the rows of the sorted statistics
  whose \<open>risk_score\<close> is at least 5, in the order of the sorted statistics.
\<close>

theorem analyze_threats:
  assumes "analyze sort_values vulns suricata_df = Inr r"
  shows "threats r = filter (\<lambda>row. risk_score row \<ge> 5) (suspicious r)"
  using assms by (rule analyze_Inr(2))

theorem analyze_threats_witness:
  "analyze sort_values_stable [] sample_frame = Inr sample_result
   \<and> threats sample_result = [sample_row_5]
   \<and> threats sample_result = filter (\<lambda>row. risk_score row \<ge> 5) (suspicious sample_result)"
  using analyze_threats [OF sample_analysis] sample_analysis
  by (simp add: sample_result_def)

text \<open>
  C8. In every row of the per-address statistics, \<open>high_severity_alert_count\<close> is at most
  \<open>alert_count\<close>.
\<close>

theorem analyze_high_le_alert_count:
  assumes "analyze sort_values vulns suricata_df = Inr r"
    and "sorts_by_risk_desc sort_values"
    and "row \<in> set (suspicious r)"
  shows "high_severity_alert_count row \<le> alert_count row"
proof -
  let ?alerts = "filter (\<lambda>e. event_type e = Some ''alert'') (rows suricata_df)"
  from assms have "row \<in> set (suspicious_unsorted ?alerts
      (filter (\<lambda>e. event_type e = Some ''dns'') (rows suricata_df)))"
    by (simp add: analyze_Inr(1) sorts_by_risk_desc_set)
  from suspicious_unsorted_row(1,2) [OF this]
  have a: "alert_count row = int (length (filter (\<lambda>e. src_ip e = Some (row_src_ip row)) ?alerts))"
    and h: "high_severity_alert_count row =
      int (length (filter (\<lambda>e. src_ip e = Some (row_src_ip row))
        (filter (\<lambda>e. (case severity e of None \<Rightarrow> 99 | Some s \<Rightarrow> s) \<le> 2) ?alerts)))"
    by blast+
  have "filter (\<lambda>e. src_ip e = Some (row_src_ip row))
        (filter (\<lambda>e. (case severity e of None \<Rightarrow> 99 | Some s \<Rightarrow> s) \<le> 2) ?alerts)
      = filter (\<lambda>e. (case severity e of None \<Rightarrow> 99 | Some s \<Rightarrow> s) \<le> 2)
          (filter (\<lambda>e. src_ip e = Some (row_src_ip row)) ?alerts)"
    unfolding filter_filter by (rule filter_cong) auto
  then have "high_severity_alert_count row \<le> alert_count row"
    unfolding a h by (simp only: length_filter_le of_nat_le_iff)
  then show ?thesis .
qed

theorem analyze_high_le_alert_count_witness:
  "analyze sort_values_stable [] sample_frame = Inr sample_result
   \<and> sorts_by_risk_desc sort_values_stable
   \<and> sample_row_9 \<in> set (suspicious sample_result)
   \<and> high_severity_alert_count sample_row_9 = 0 \<and> alert_count sample_row_9 = 2
   \<and> high_severity_alert_count sample_row_9 \<le> alert_count sample_row_9"
proof -
  have in9: "sample_row_9 \<in> set (suspicious sample_result)"
    by (simp add: sample_result_def)
  show ?thesis
    using analyze_high_le_alert_count [OF sample_analysis sort_values_stable_ok in9]
      sample_analysis sort_values_stable_ok in9
    by (simp add: sample_row_9_def)
qed

lemma remdups_snoc: "remdups (ys @ [x]) = filter (\<lambda>y. y \<noteq> x) (remdups ys) @ [x]"
  by (induction ys) auto

lemma first_occurrences_Cons:
  "rev (remdups (rev (x # xs))) = x # filter (\<lambda>y. y \<noteq> x) (rev (remdups (rev xs)))"
  by (simp add: remdups_snoc rev_filter)

lemma union_indexes_append:
  "rev (remdups (rev (xs @ ys))) =
     rev (remdups (rev xs)) @ filter (\<lambda>y. y \<notin> set xs) (rev (remdups (rev ys)))"
proof (induction xs)
  case Nil
  show ?case by simp
next
  case (Cons x xs)
  have "rev (remdups (rev ((x # xs) @ ys))) =
      x # filter (\<lambda>y. y \<noteq> x) (rev (remdups (rev (xs @ ys))))"
    using first_occurrences_Cons [of x "xs @ ys"] by simp
  also have "\<dots> = x # filter (\<lambda>y. y \<noteq> x) (rev (remdups (rev xs)))
      @ filter (\<lambda>y. y \<notin> set (x # xs)) (rev (remdups (rev ys)))"
    unfolding Cons.IH by (auto intro: filter_cong)
  finally show ?case
    unfolding first_occurrences_Cons [of x xs] by simp
qed

lemma keys_groupby_size_sorted:
  "sorted (map fst (groupby_size evs))" "distinct (map fst (groupby_size evs))"
  by (simp_all add: groupby_size_def comp_def)

text \<open>The addresses of the table before the sort.\<close>

lemma suspicious_unsorted_addresses:
  "map row_src_ip (suspicious_unsorted alerts dns) =
     map fst (groupby_size alerts)
       @ filter (\<lambda>a. a \<notin> fst ` set (groupby_size alerts)) (map fst (groupby_size dns))"
proof -
  let ?hi = "filter (\<lambda>e. (case severity e of None \<Rightarrow> 99 | Some s \<Rightarrow> s) \<le> 2) alerts"
  let ?A = "map fst (groupby_size alerts)" and ?H = "map fst (groupby_size ?hi)"
    and ?D = "map fst (groupby_size dns)"
  have sub: "set ?H \<subseteq> set ?A"
    unfolding keys_groupby_size by auto
  have "map row_src_ip (suspicious_unsorted alerts dns) = union_indexes [?A, ?H, ?D]"
    by (simp add: suspicious_unsorted_def Let_def comp_def)
  also have "\<dots> = rev (remdups (rev (?A @ (?H @ ?D))))"
    by (simp add: union_indexes_def)
  also have "\<dots> = ?A @ filter (\<lambda>y. y \<notin> set ?A) (rev (remdups (rev (?H @ ?D))))"
    unfolding union_indexes_append [of ?A]
    by (simp add: distinct_remdups_id keys_groupby_size_sorted(2))
  also have "rev (remdups (rev (?H @ ?D))) = ?H @ filter (\<lambda>y. y \<notin> set ?H) ?D"
    unfolding union_indexes_append [of ?H]
    by (simp add: distinct_remdups_id keys_groupby_size_sorted(2))
  also have "filter (\<lambda>y. y \<notin> set ?A) (?H @ filter (\<lambda>y. y \<notin> set ?H) ?D)
      = filter (\<lambda>y. y \<notin> set ?A) ?D"
  proof -
    have "filter (\<lambda>y. y \<notin> set ?A) ?H = []"
      using sub by (auto simp only: filter_empty_conv)
    moreover have "filter (\<lambda>y. y \<notin> set ?A) (filter (\<lambda>y. y \<notin> set ?H) ?D)
        = filter (\<lambda>y. y \<notin> set ?A) ?D"
      unfolding filter_filter using sub by (intro filter_cong) auto
    ultimately show ?thesis by (simp only: filter_append append_Nil)
  qed
  finally show ?thesis by simp
qed

lemma sort_values_stable_ties:
  "filter (\<lambda>r. risk_score r = s) (sort_values_stable t) = filter (\<lambda>r. risk_score r = s) t"
  using sort_key_stable [of "\<lambda>r. - risk_score r" "- s" t]
  by (simp add: sort_values_stable_def)

lemma sort_values_reversed_ok: "sorts_by_risk_desc sort_values_reversed"
proof -
  have "sorted_wrt (\<lambda>a b. risk_score b \<le> risk_score a) (rev (sort_key risk_score t))"
    for t :: "stat_row list"
    using sorted_sort_key [of risk_score t]
    by (simp add: sorted_map sorted_wrt_rev)
  then show ?thesis
    by (simp add: sorts_by_risk_desc_def sort_values_reversed_def)
qed

text \<open>The promise of \<open>sort_values\<close> leaves the order of ties open.\<close>

lemma sort_values_ties_not_fixed:
  "map row_src_ip (sort_values_stable [sample_row_9\<lparr>risk_score := 7\<rparr>, sample_row_5])
     = [''10.0.0.9'', ''10.0.0.5'']
   \<and> map row_src_ip (sort_values_reversed [sample_row_9\<lparr>risk_score := 7\<rparr>, sample_row_5])
     = [''10.0.0.5'', ''10.0.0.9'']"
  by code_simp

lemma sorts_by_risk_desc_mset: "sorts_by_risk_desc f \<Longrightarrow> mset (f t) = mset t"
  by (simp add: sorts_by_risk_desc_def)

lemma sorts_by_risk_desc_sorted:
  "sorts_by_risk_desc f \<Longrightarrow> sorted_wrt (\<lambda>a b. risk_score b \<le> risk_score a) (f t)"
  by (simp add: sorts_by_risk_desc_def)







text \<open>
  C4, as the code has it. The per-address statistics returned by \<open>analyze\<close> are in
  non-increasing order of \<open>risk_score\<close> and hold the rows of the grouped table. That table
  lists the addresses that have alert events in ascending order of the address, then the
  other addresses in ascending order; the order among rows with equal \<open>risk_score\<close> is the
  one the sort leaves, which the code does not fix.
\<close>

theorem analyze_suspicious_order:
  assumes "analyze sort_values vulns suricata_df = Inr r"
    and "sorts_by_risk_desc sort_values"
    and "alerts = filter (\<lambda>e. event_type e = Some ''alert'') (rows suricata_df)"
    and "dns = filter (\<lambda>e. event_type e = Some ''dns'') (rows suricata_df)"
  shows "sorted_wrt (\<lambda>a b. risk_score b \<le> risk_score a) (suspicious r)
         \<and> mset (suspicious r) = mset (suspicious_unsorted alerts dns)
         \<and> map row_src_ip (suspicious_unsorted alerts dns) =
             sort (remdups (List.map_filter src_ip alerts))
               @ filter (\<lambda>a. a \<notin> set (List.map_filter src_ip alerts))
                   (sort (remdups (List.map_filter src_ip dns)))"
proof -
  have s: "suspicious r = sort_values (suspicious_unsorted alerts dns)"
    using analyze_Inr(1) [OF assms(1)] assms(3,4) by simp
  have "map row_src_ip (suspicious_unsorted alerts dns) =
      sort (remdups (List.map_filter src_ip alerts))
        @ filter (\<lambda>a. a \<notin> set (List.map_filter src_ip alerts))
            (sort (remdups (List.map_filter src_ip dns)))"
    unfolding suspicious_unsorted_addresses
    by (simp add: groupby_size_def comp_def image_image)
  with s assms(2) show ?thesis
    by (simp add: sorts_by_risk_desc_mset sorts_by_risk_desc_sorted)
qed

theorem analyze_suspicious_order_witness:
  "analyze sort_values_stable [] sample_frame = Inr sample_result
   \<and> sorts_by_risk_desc sort_values_stable
   \<and> sorted_wrt (\<lambda>a b. risk_score b \<le> risk_score a) (suspicious sample_result)
   \<and> map risk_score (suspicious sample_result) = [7, 4]
   \<and> map row_src_ip
        (suspicious_unsorted
           (filter (\<lambda>e. event_type e = Some ''alert'') (rows sample_frame))
           (filter (\<lambda>e. event_type e = Some ''dns'') (rows sample_frame)))
       = [''10.0.0.5'', ''10.0.0.9'']"
proof -
  have ord: "map row_src_ip
        (suspicious_unsorted
           (filter (\<lambda>e. event_type e = Some ''alert'') (rows sample_frame))
           (filter (\<lambda>e. event_type e = Some ''dns'') (rows sample_frame)))
       = [''10.0.0.5'', ''10.0.0.9'']"
    by code_simp
  show ?thesis
    using analyze_suspicious_order [OF sample_analysis sort_values_stable_ok refl refl]
      sample_analysis sort_values_stable_ok ord
    by (simp add: sample_result_def sample_row_5_def sample_row_9_def)
qed

text \<open>
  C4 as stated fails: two addresses tie with \<open>risk_score\<close> 2, \<open>10.0.0.9\<close> is seen first in
  the events, and with the sort that keeps ties in place the statistics list \<open>10.0.0.5\<close>
  first.
\<close>

theorem analyze_tie_order_counterexample:
  "map_sum id suspicious (analyze sort_values_stable [] tie_frame) =
     Inr [\<lparr>row_src_ip = ''10.0.0.5'', alert_count = 1, high_severity_alert_count = 0,
            dns_query_count = 0, risk_score = 2\<rparr>,
          \<lparr>row_src_ip = ''10.0.0.9'', alert_count = 1, high_severity_alert_count = 0,
            dns_query_count = 0, risk_score = 2\<rparr>]
   \<and> first_seen (rows tie_frame) ''10.0.0.9'' = 0
   \<and> first_seen (rows tie_frame) ''10.0.0.5'' = 1"
  by code_simp

lemma groupby_size_drop_null:
  "groupby_size (filter (\<lambda>e. src_ip e \<noteq> None) evs) = groupby_size evs"
proof -
  have "List.map_filter src_ip (filter (\<lambda>e. src_ip e \<noteq> None) evs) = List.map_filter src_ip evs"
    by (induction evs) (auto simp: List.map_filter_simps split: option.splits)
  moreover have "filter (\<lambda>e. src_ip e = Some k) (filter (\<lambda>e. src_ip e \<noteq> None) evs)
      = filter (\<lambda>e. src_ip e = Some k) evs" for k
    unfolding filter_filter by (rule filter_cong) auto
  ultimately show ?thesis by (simp add: groupby_size_def)
qed

lemma suspicious_unsorted_drop_null:
  "suspicious_unsorted (filter (\<lambda>e. src_ip e \<noteq> None) alerts) (filter (\<lambda>e. src_ip e \<noteq> None) dns)
     = suspicious_unsorted alerts dns"
proof -
  have "filter (\<lambda>e. (case severity e of None \<Rightarrow> 99 | Some s \<Rightarrow> s) \<le> 2)
          (filter (\<lambda>e. src_ip e \<noteq> None) alerts)
      = filter (\<lambda>e. src_ip e \<noteq> None)
          (filter (\<lambda>e. (case severity e of None \<Rightarrow> 99 | Some s \<Rightarrow> s) \<le> 2) alerts)"
    unfolding filter_filter by (rule filter_cong) auto
  then show ?thesis
    unfolding suspicious_unsorted_def by (simp only: groupby_size_drop_null)
qed

text \<open>
  C10. Every row of the per-address statistics carries the address of some event, and the
  events without an address count for nothing: dropping them from the frame leaves the
  statistics and the threat list as they are.
\<close>

theorem analyze_null_src_ip_excluded:
  assumes "analyze sort_values vulns suricata_df = Inr r"
    and "sorts_by_risk_desc sort_values"
  shows "(\<forall>row \<in> set (suspicious r). \<exists>e \<in> set (rows suricata_df). src_ip e = Some (row_src_ip row))
         \<and> (\<exists>r'. analyze sort_values vulns
                    (suricata_df\<lparr>rows := filter (\<lambda>e. src_ip e \<noteq> None) (rows suricata_df)\<rparr>)
                  = Inr r'
                \<and> suspicious r' = suspicious r \<and> threats r' = threats r)"
proof (intro conjI ballI)
  let ?alerts = "filter (\<lambda>e. event_type e = Some ''alert'') (rows suricata_df)"
  let ?dns = "filter (\<lambda>e. event_type e = Some ''dns'') (rows suricata_df)"
  fix row
  assume "row \<in> set (suspicious r)"
  with assms have "row \<in> set (suspicious_unsorted ?alerts ?dns)"
    by (simp add: analyze_Inr(1) sorts_by_risk_desc_set)
  from suspicious_unsorted_row(5) [OF this]
  show "\<exists>e \<in> set (rows suricata_df). src_ip e = Some (row_src_ip row)"
    by auto
next
  let ?nn = "\<lambda>e. src_ip e \<noteq> None"
  let ?df' = "suricata_df\<lparr>rows := filter ?nn (rows suricata_df)\<rparr>"
  let ?alerts = "filter (\<lambda>e. event_type e = Some ''alert'') (rows suricata_df)"
  let ?dns = "filter (\<lambda>e. event_type e = Some ''dns'') (rows suricata_df)"
  have cols: "''event_type'' \<in> set (columns suricata_df)" "''src_ip'' \<in> set (columns suricata_df)"
    "''severity'' \<in> set (columns suricata_df)"
    using assms(1) by (auto simp: analyze_def Let_def split: if_splits)
  then obtain r' where r': "analyze sort_values vulns ?df' = Inr r'"
    by (simp add: analyze_def Let_def)
  have comm: "filter (\<lambda>e. event_type e = Some ty) (filter ?nn (rows suricata_df))
      = filter ?nn (filter (\<lambda>e. event_type e = Some ty) (rows suricata_df))" for ty
    unfolding filter_filter by (rule filter_cong) auto
  have rows': "rows ?df' = filter ?nn (rows suricata_df)"
    by simp
  have "suspicious r' = sort_values (suspicious_unsorted (filter ?nn ?alerts) (filter ?nn ?dns))"
    using analyze_Inr(1) [OF r'] unfolding rows' comm .
  then have "suspicious r' = suspicious r"
    using analyze_Inr(1) [OF assms(1)] by (simp only: suspicious_unsorted_drop_null)
  moreover from this have "threats r' = threats r"
    using analyze_Inr(2) [OF r'] analyze_Inr(2) [OF assms(1)] by simp
  ultimately show "\<exists>r'. analyze sort_values vulns ?df' = Inr r'
      \<and> suspicious r' = suspicious r \<and> threats r' = threats r"
    using r' by blast
qed

theorem analyze_null_src_ip_excluded_witness:
  "analyze sort_values_stable [] sample_frame = Inr sample_result
   \<and> sorts_by_risk_desc sort_values_stable
   \<and> length (filter (\<lambda>e. src_ip e = None) (rows sample_frame)) = 2
   \<and> list_all (\<lambda>row. list_ex (\<lambda>e. src_ip e = Some (row_src_ip row)) (rows sample_frame))
         (suspicious sample_result)
   \<and> (\<exists>r'. analyze sort_values_stable []
               (sample_frame\<lparr>rows := filter (\<lambda>e. src_ip e \<noteq> None) (rows sample_frame)\<rparr>)
             = Inr r'
           \<and> suspicious r' = suspicious sample_result \<and> threats r' = threats sample_result)"
proof -
  have n: "length (filter (\<lambda>e. src_ip e = None) (rows sample_frame)) = 2"
    by code_simp
  show ?thesis
    using analyze_null_src_ip_excluded [OF sample_analysis sort_values_stable_ok]
      sample_analysis sort_values_stable_ok n
    unfolding list_all_iff list_ex_iff by blast
qed

text \<open>
  C2 at the empty event file: \<open>load_suricata_events\<close> returns the frame without columns,
  and \<open>analyze\<close> raises \<open>KeyError\<close> on it instead of returning empty tables.
\<close>

theorem analyze_empty_events_raises:
  "load_suricata_events json_loads to_datetime (Inr []) = Inr (DataFrame [])
   \<and> analyze sort_values vulns (DataFrame []) = Inl (KeyError ''event_type'')"
  by (simp add: load_suricata_events_def and_then_def DataFrame_def empty_def analyze_def)

text \<open>
  On a frame that has the event columns and no row, \<open>analyze\<close> returns empty tables and
  \<open>simulate_response\<close> no action.
\<close>

lemma analyze_no_event_rows:
  assumes "sorts_by_risk_desc sort_values"
  shows "\<exists>r. analyze sort_values vulns \<lparr>columns = event_columns, rows = []\<rparr> = Inr r
          \<and> suspicious r = [] \<and> threats r = [] \<and> simulate_response (threats r) = []"
proof -
  have "suspicious_unsorted [] [] = []"
    by (simp add: suspicious_unsorted_def groupby_size_def union_indexes_def
        List.map_filter_simps)
  moreover have "sort_values [] = []"
    using sorts_by_risk_desc_mset [OF assms, of "[]"] by simp
  ultimately show ?thesis
    by (simp add: analyze_def Let_def event_columns_def simulate_response_def)
qed

section \<open>Properties of fetch_vulners_data\<close>

lemma and_then_Inr: "and_then m f = Inr y \<longleftrightarrow> (\<exists>x. m = Inr x \<and> f x = Inr y)"
  by (cases m) (simp_all add: and_then_def)

lemma and_then_Inl: "and_then (Inl e) f = Inl e"
  by (simp add: and_then_def)

lemma and_then_Inr_simp: "and_then (Inr x) f = f x"
  by (simp add: and_then_def)

lemma py_get_Inr:
  "py_get j k d = Inr v \<longleftrightarrow> (\<exists>kvs. j = JObj kvs \<and> v = (case map_of kvs k of None \<Rightarrow> d | Some w \<Rightarrow> w))"
  by (cases j) auto

lemma field_at_Nil: "field_at v [] = (if v = JNull then None else Some v)"
  by (cases v) simp_all

lemma primary_score_field:
  assumes "py_get doc ''cvss'' (JObj []) = Inr c0"
    and "py_get (py_or c0 (JObj [])) ''score'' JNull = Inr s0"
  shows "field_at doc [''cvss'', ''score''] = (if s0 = JNull then None else Some s0)"
proof -
  from assms(1) obtain kvs where doc: "doc = JObj kvs"
    and c0: "c0 = (case map_of kvs ''cvss'' of None \<Rightarrow> JObj [] | Some w \<Rightarrow> w)"
    unfolding py_get_Inr by blast
  show ?thesis
  proof (cases "map_of kvs ''cvss''")
    case None
    with assms(2) c0 doc show ?thesis by (simp add: py_or_def)
  next
    case (Some w)
    with c0 have "c0 = w" by simp
    with assms(2) Some doc show ?thesis
      by (cases w) (auto simp: py_or_def field_at_Nil split: if_splits option.splits)
  qed
qed

lemma v3_score_field:
  assumes "py_get doc ''cvss3'' (JObj []) = Inr c3"
    and "py_get c3 ''cvssV3'' (JObj []) = Inr v3"
    and "py_get v3 ''baseScore'' JNull = Inr s"
  shows "field_at doc [''cvss3'', ''cvssV3'', ''baseScore''] = (if s = JNull then None else Some s)"
  using assms unfolding py_get_Inr
  by (auto simp: field_at_Nil split: option.splits)

lemma vuln_of_doc_cvss:
  assumes "vuln_of_doc pyfloat doc = Inr v"
  shows "\<exists>c. cvss_resolution pyfloat doc = Inr c \<and> py_get v ''cvss'' JNull = Inr (JNum c)"
proof -
  from assms obtain c0 s0 score c where
    c0: "py_get doc ''cvss'' (JObj []) = Inr c0"
    and s0: "py_get (py_or c0 (JObj [])) ''score'' JNull = Inr s0"
    and score: "(if s0 = JNull then
            and_then (py_get doc ''cvss3'' (JObj [])) (\<lambda>c3.
            and_then (py_get c3 ''cvssV3'' (JObj [])) (\<lambda>v3.
            py_get v3 ''baseScore'' JNull))
          else Inr s0) = Inr score"
    and c: "(if score \<noteq> JNull then pyfloat score else Inr 0) = Inr c"
    and v: "py_get v ''cvss'' JNull = Inr (JNum c)"
    unfolding vuln_of_doc_def Let_def and_then_Inr by auto
  have p: "field_at doc [''cvss'', ''score''] = (if s0 = JNull then None else Some s0)"
    using c0 s0 by (rule primary_score_field)
  have "cvss_resolution pyfloat doc = Inr c"
  proof (cases "s0 = JNull")
    case False
    with score c p show ?thesis by (simp add: cvss_resolution_def)
  next
    case True
    with score obtain c3 v3 where "py_get doc ''cvss3'' (JObj []) = Inr c3"
      "py_get c3 ''cvssV3'' (JObj []) = Inr v3" "py_get v3 ''baseScore'' JNull = Inr score"
      by (auto simp: and_then_Inr)
    then have "field_at doc [''cvss3'', ''cvssV3'', ''baseScore'']
        = (if score = JNull then None else Some score)"
      by (rule v3_score_field)
    with True c p show ?thesis by (simp add: cvss_resolution_def split: if_splits)
  qed
  with v show ?thesis by blast
qed

lemma traverse_e_Inr:
  "traverse_e f xs = Inr ys \<Longrightarrow> list_all2 (\<lambda>x y. f x = Inr y) xs ys"
  by (induction xs arbitrary: ys) (auto simp: and_then_Inr)

lemma traverse_e_Inl:
  "x \<in> set xs \<Longrightarrow> f x = Inl e \<Longrightarrow> \<exists>e'. traverse_e f xs = Inl e'"
proof (induction xs)
  case Nil
  then show ?case by simp
next
  case (Cons a xs)
  then show ?case
    by (cases "f a"; cases "traverse_e f xs") (auto simp: and_then_def)
qed

text \<open>On a payload the remote path accepts, every record carries the resolved score.\<close>

lemma remote_vulns_cvss:
  assumes "remote_vulns pyfloat requests_get api_key = Inr vulns"
  shows "\<exists>payload docs. requests_get api_key = Inr payload \<and> payload_docs payload = Inr docs
           \<and> list_all2 (\<lambda>doc v. \<exists>c. cvss_resolution pyfloat doc = Inr c
                                   \<and> py_get v ''cvss'' JNull = Inr (JNum c)) docs vulns"
proof -
  from assms obtain payload docs where p: "requests_get api_key = Inr payload"
    and d: "payload_docs payload = Inr docs"
    and t: "traverse_e (vuln_of_doc pyfloat) docs = Inr vulns"
    unfolding remote_vulns_def and_then_Inr by blast
  from traverse_e_Inr [OF t]
  have "list_all2 (\<lambda>doc v. \<exists>c. cvss_resolution pyfloat doc = Inr c
                                   \<and> py_get v ''cvss'' JNull = Inr (JNum c)) docs vulns"
    by (rule list_all2_mono) (rule vuln_of_doc_cvss)
  with p d show ?thesis by blast
qed

lemma strip_secret: "strip ''secret'' = ''secret''"
  by code_simp

text \<open>
  C9 at a document whose \<open>cvss3\<close> member is \<open>null\<close>: both score fields are absent, so the
  resolution of the specification gives 0.0, while the loop body raises and the whole remote
  answer is given up for the local data. A \<open>null\<close> \<open>cvss\<close> member is taken as absent.
\<close>

theorem vuln_of_doc_null_cvss3:
  "cvss_resolution pyfloat null_cvss3_doc = Inr 0
   \<and> vuln_of_doc pyfloat null_cvss3_doc = Inl AttributeError
   \<and> fetch_vulners_data pyfloat null_cvss3_get (Inr local_data) (Some ''secret'')
       = Inr (local_data, ''local_vulners_sample'')
   \<and> vuln_of_doc pyfloat null_cvss_doc =
       Inr (JObj [(''id'', JStr ''CVE-2024-0002''), (''title'', JStr []), (''cvss'', JNum 0),
                  (''published'', JNull), (''references'', JArr [])])"
proof -
  have a: "vuln_of_doc pyfloat null_cvss3_doc = Inl AttributeError"
    by (simp add: vuln_of_doc_def null_cvss3_doc_def and_then_def py_or_def)
  have "remote_vulns pyfloat null_cvss3_get ''secret'' = Inl AttributeError"
    by (simp add: remote_vulns_def payload_docs_def null_cvss3_payload_def null_cvss3_get_def
        and_then_def a)
  then have b: "fetch_vulners_data pyfloat null_cvss3_get (Inr local_data)
      (Some ''secret'') = Inr (local_data, ''local_vulners_sample'')"
    by (simp add: fetch_vulners_data_def strip_secret and_then_def)
  have c: "cvss_resolution pyfloat null_cvss3_doc = Inr 0"
    by (simp add: cvss_resolution_def null_cvss3_doc_def)
  have d: "vuln_of_doc pyfloat null_cvss_doc =
       Inr (JObj [(''id'', JStr ''CVE-2024-0002''), (''title'', JStr []), (''cvss'', JNum 0),
                  (''published'', JNull), (''references'', JArr [])])"
    by (simp add: vuln_of_doc_def null_cvss_doc_def and_then_def py_or_def)
  from a b c d show ?thesis by blast
qed

text \<open>
  C6. When no credential is configured, or the request raises, or the payload is malformed
  (it has no iterable list of documents, or a document cannot be converted), or it holds no
  document, \<open>fetch_vulners_data\<close> gives what the local file gives, labelled
  \<open>local_vulners_sample\<close>; the only errors left are those of reading the local file.
\<close>

theorem fetch_vulners_data_fallback:
  assumes "api_key = strip (case env_key of None \<Rightarrow> [] | Some k \<Rightarrow> k)"
    and "api_key = []
         \<or> (\<exists>e. requests_get api_key = Inl e)
         \<or> (\<exists>payload. requests_get api_key = Inr payload
               \<and> ((\<exists>e. payload_docs payload = Inl e)
                  \<or> (\<exists>docs. payload_docs payload = Inr docs
                        \<and> (docs = [] \<or> (\<exists>doc \<in> set docs. \<exists>e. vuln_of_doc pyfloat doc = Inl e)))))"
  shows "fetch_vulners_data pyfloat requests_get local_file env_key =
           (case local_file of
              Inl e \<Rightarrow> Inl e
            | Inr local_data \<Rightarrow> Inr (local_data, ''local_vulners_sample''))"
proof -
  have local: "and_then local_file (\<lambda>local_data. Inr (local_data, ''local_vulners_sample''))
      = (case local_file of Inl e \<Rightarrow> Inl e
         | Inr local_data \<Rightarrow> Inr (local_data, ''local_vulners_sample''))"
    by (simp add: and_then_def)
  show ?thesis
  proof (cases "api_key = []")
    case True
    with assms(1) show ?thesis
      by (simp add: fetch_vulners_data_def local)
  next
    case False
    with assms(2) have "(\<exists>e. remote_vulns pyfloat requests_get api_key = Inl e)
        \<or> remote_vulns pyfloat requests_get api_key = Inr []"
      unfolding remote_vulns_def
      by (auto simp: and_then_Inl and_then_Inr_simp dest: traverse_e_Inl)
    with assms(1) show ?thesis
      by (auto simp: fetch_vulners_data_def Let_def local)
  qed
qed

theorem fetch_vulners_data_fallback_witness:
  "fetch_vulners_data sample_float scenario_E_get (Inr sample_local) None
      = Inr (sample_local, ''local_vulners_sample'')
   \<and> network_down ''secret'' = Inl RequestException
   \<and> fetch_vulners_data sample_float network_down (Inr sample_local) (Some ''secret'')
      = Inr (sample_local, ''local_vulners_sample'')
   \<and> scenario_E_get ''secret'' = Inr scenario_E_payload
   \<and> payload_docs scenario_E_payload = Inr []
   \<and> fetch_vulners_data sample_float scenario_E_get (Inr sample_local) (Some ''secret'')
      = Inr (sample_local, ''local_vulners_sample'')"
proof -
  have n: "[] = strip (case None of None \<Rightarrow> [] | Some k \<Rightarrow> k)"
    by (simp add: strip_def)
  have k: "''secret'' = strip (case Some ''secret'' of None \<Rightarrow> [] | Some k \<Rightarrow> k)"
    by (simp add: strip_secret)
  have d: "payload_docs scenario_E_payload = Inr []"
    by (simp add: payload_docs_def scenario_E_payload_def and_then_def)
  have none: "fetch_vulners_data sample_float scenario_E_get (Inr sample_local) None
      = Inr (sample_local, ''local_vulners_sample'')"
    using fetch_vulners_data_fallback
      [where requests_get = scenario_E_get and pyfloat = sample_float
         and local_file = "Inr sample_local", OF n]
    by simp
  have down: "fetch_vulners_data sample_float network_down (Inr sample_local) (Some ''secret'')
      = Inr (sample_local, ''local_vulners_sample'')"
    using fetch_vulners_data_fallback
      [where requests_get = network_down and pyfloat = sample_float
         and local_file = "Inr sample_local", OF k]
    by (simp add: network_down_def)
  have zero: "fetch_vulners_data sample_float scenario_E_get (Inr sample_local)
      (Some ''secret'') = Inr (sample_local, ''local_vulners_sample'')"
    using fetch_vulners_data_fallback
      [where requests_get = scenario_E_get and pyfloat = sample_float
         and local_file = "Inr sample_local", OF k] d
    by (simp add: scenario_E_get_def)
  from none down zero d show ?thesis
    by (simp add: network_down_def scenario_E_get_def)
qed

section \<open>Properties of load_suricata_events\<close>













end
